theory Spec2Isabelle
  imports Complex_Main "HOL-Library.Log_Nat"
begin

section \<open>Data model\<close>

text \<open>
  The notebooks drive a six-legged walking controller: a network of coupled oscillators
  (\<open>CPGNetwork\<close>) owned by a \<open>HybridTurningFly\<close>. Numpy arrays are lists. A
  floating-point number is the real number it denotes. The turning modulation only
  takes absolute values, multiplies by 1 or -1 and compares with 0, which are exact on
  doubles; the oscillator network is integrated over the reals; the zig-zag signals
  are computed with every operation rounded to double precision.
\<close>

datatype error = IndexError | InvalidStateError

text \<open>
  The oscillator network. Its fields are the keyword arguments of the constructor call
  quoted in the fly-following notebook, plus the oscillator state set by \<open>reset\<close>.
\<close>

record CPGNetwork =
  timestep :: real
  intrinsic_freqs :: "real list"
  intrinsic_amps :: "real list"
  coupling_weights :: "real list list"
  phase_biases :: "real list list"
  convergence_coefs :: "real list"
  seed :: nat
  curr_phases :: "real list"
  curr_magnitudes :: "real list"

text \<open>
  The fly keeps its own copy of the baseline frequencies (\<open>self.intrinsic_freqs\<close>) next
  to the network it drives (\<open>self.cpg_network\<close>).
\<close>

record HybridTurningFly =
  self_intrinsic_freqs :: "real list"
  cpg_network :: CPGNetwork

section \<open>Turning modulation (the quoted step of HybridTurningFly)\<close>

text \<open>
  \<^verbatim>\<open>amps = np.repeat(np.abs(action[:, np.newaxis]), 3, axis=1).ravel()\<close>:
  every entry of the action, in absolute value, three times in a row.
\<close>

definition repeat3_abs :: "real list \<Rightarrow> real list" where
  "repeat3_abs action = concat (map (\<lambda>a. replicate 3 \<bar>a\<bar>) action)"

text \<open>\<^verbatim>\<open>freqs[:3] *= s\<close> and \<^verbatim>\<open>freqs[3:] *= s\<close>: in-place scaling of a slice.\<close>

definition scale_upto3 :: "real \<Rightarrow> real list \<Rightarrow> real list" where
  "scale_upto3 s freqs = map (\<lambda>x. x * s) (take 3 freqs) @ drop 3 freqs"

definition scale_from3 :: "real \<Rightarrow> real list \<Rightarrow> real list" where
  "scale_from3 s freqs = take 3 freqs @ map (\<lambda>x. x * s) (drop 3 freqs)"

text \<open>
  The first four lines of the quoted step: the amplitude and frequency vectors computed
  from the descending signal \<open>action\<close> and the fly's baseline frequencies. Reading
  \<open>action[0]\<close> or \<open>action[1]\<close> past the end of the array raises \<open>IndexError\<close>. The
  result is the pair (frequency vector, amplitude vector).
\<close>

definition compute_intrinsic_overrides ::
  "HybridTurningFly \<Rightarrow> real list \<Rightarrow> error + (real list \<times> real list)" where
  "compute_intrinsic_overrides self action =
     (let amps = repeat3_abs action;
          freqs = self_intrinsic_freqs self
      in if length action < 1 then Inl IndexError
         else let freqs = scale_upto3 (if action ! 0 > 0 then 1 else -1) freqs
              in if length action < 2 then Inl IndexError
                 else let freqs = scale_from3 (if action ! 1 > 0 then 1 else -1) freqs
                      in Inr (freqs, amps))"

text \<open>
  The last two lines of the quoted step: both vectors are assigned to the network.
\<close>

definition update_cpg_intrinsics ::
  "HybridTurningFly \<Rightarrow> real list \<Rightarrow> error + HybridTurningFly" where
  "update_cpg_intrinsics self action =
     (case compute_intrinsic_overrides self action of
        Inl e \<Rightarrow> Inl e
      | Inr (freqs, amps) \<Rightarrow>
          Inr (self\<lparr>cpg_network :=
                 (cpg_network self)\<lparr>intrinsic_amps := amps, intrinsic_freqs := freqs\<rparr>\<rparr>))"

text \<open>
  The frequency a side's oscillator receives: the baseline when the side's signal is
  strictly positive, its negation otherwise.
\<close>

definition signed_freq :: "real \<Rightarrow> real \<Rightarrow> real" where
  "signed_freq \<delta> \<nu> = (if \<delta> > 0 then \<nu> else - \<nu>)"

section \<open>The oscillator network\<close>

text \<open>
  Modelled from the spec: the class \<open>CPGNetwork\<close> is imported by the notebooks from the
  simulation library and only called here (\<open>CPGNetwork(...)\<close>, \<open>reset\<close>), so its
  operations follow section 4.1 of the specification. \<open>N\<close> is the number of
  oscillators fixed at construction.
\<close>

definition num_oscillators :: "CPGNetwork \<Rightarrow> nat" where
  "num_oscillators net = length (convergence_coefs net)"

text \<open>
  Modelled from the spec: \<open>reset(initial_phases, initial_amplitudes)\<close> "sets
  OscillatorState explicitly; fails with InvalidStateError if vector lengths \<noteq> N or
  amplitudes are negative". The result pairs the raised error, if any, with the network
  as it is after the call.
\<close>

definition reset :: "CPGNetwork \<Rightarrow> real list \<Rightarrow> real list \<Rightarrow> error option \<times> CPGNetwork" where
  "reset net initial_phases initial_amplitudes =
     (if length initial_phases \<noteq> num_oscillators net
         \<or> length initial_amplitudes \<noteq> num_oscillators net
         \<or> (\<exists>a \<in> set initial_amplitudes. a < 0)
      then (Some InvalidStateError, net)
      else (None, net\<lparr>curr_phases := initial_phases,
                         curr_magnitudes := initial_amplitudes\<rparr>))"

text \<open>
  Modelled from the spec: "phases are wrapped into [0, 2\<pi>) after each step (modular
  arithmetic)".
\<close>

definition wrap_phase :: "real \<Rightarrow> real" where
  "wrap_phase \<theta> = \<theta> - 2 * pi * of_int \<lfloor>\<theta> / (2 * pi)\<rfloor>"

text \<open>
  Modelled from the spec: the right-hand sides of the oscillator equations, which the
  notebook also states,
  \<open>\<theta>'\<^sub>i = 2\<pi>\<nu>\<^sub>i + \<Sum>\<^sub>j r\<^sub>j w\<^sub>i\<^sub>j sin(\<theta>\<^sub>j - \<theta>\<^sub>i - \<phi>\<^sub>i\<^sub>j)\<close> and
  \<open>r'\<^sub>i = \<alpha>\<^sub>i (R\<^sub>i - r\<^sub>i)\<close>.
\<close>

definition phase_rate :: "CPGNetwork \<Rightarrow> nat \<Rightarrow> real" where
  "phase_rate net i =
     2 * pi * (intrinsic_freqs net ! i)
     + sum_list (map (\<lambda>j. (curr_magnitudes net ! j) * (coupling_weights net ! i ! j)
                            * sin (curr_phases net ! j - curr_phases net ! i
                                   - phase_biases net ! i ! j))
                     [0..<num_oscillators net])"

definition magnitude_rate :: "CPGNetwork \<Rightarrow> nat \<Rightarrow> real" where
  "magnitude_rate net i =
     (convergence_coefs net ! i) * (intrinsic_amps net ! i - curr_magnitudes net ! i)"

text \<open>
  Modelled from the spec: \<open>step()\<close> advances the state by one timestep with forward
  Euler, wraps the phases and clamps the amplitudes at 0.
\<close>

definition step :: "CPGNetwork \<Rightarrow> CPGNetwork" where
  "step net =
     net\<lparr>curr_phases :=
           map (\<lambda>i. wrap_phase (curr_phases net ! i + timestep net * phase_rate net i))
               [0..<num_oscillators net],
         curr_magnitudes :=
           map (\<lambda>i. max 0 (curr_magnitudes net ! i + timestep net * magnitude_rate net i))
               [0..<num_oscillators net]\<rparr>"

text \<open>The state invariant of the data model: phases in [0, 2\<pi>), amplitudes at least 0.\<close>

definition state_ok :: "real list \<times> real list \<Rightarrow> bool" where
  "state_ok st = ((\<forall>\<theta> \<in> set (fst st). 0 \<le> \<theta> \<and> \<theta> < 2 * pi) \<and> (\<forall>r \<in> set (snd st). 0 \<le> r))"

definition get_state :: "CPGNetwork \<Rightarrow> real list \<times> real list" where
  "get_state net = (curr_phases net, curr_magnitudes net)"

section \<open>The control loop\<close>

text \<open>
  One control step: the intrinsic parameters are overwritten from the descending signal,
  then the network integrates one timestep.
\<close>

definition control_step :: "HybridTurningFly \<Rightarrow> real list \<Rightarrow> error + HybridTurningFly" where
  "control_step self action =
     (case update_cpg_intrinsics self action of
        Inl e \<Rightarrow> Inl e
      | Inr self' \<Rightarrow> Inr (self'\<lparr>cpg_network := step (cpg_network self')\<rparr>))"

text \<open>A run over a sequence of descending signals, stopping at the first error.\<close>

fun run_steps :: "HybridTurningFly \<Rightarrow> real list list \<Rightarrow> error + HybridTurningFly" where
  "run_steps self [] = Inr self"
| "run_steps self (action # actions) =
     (case control_step self action of
        Inl e \<Rightarrow> Inl e
      | Inr self' \<Rightarrow> run_steps self' actions)"

text \<open>The oscillator states observed after each step of a run.\<close>

fun trajectory :: "HybridTurningFly \<Rightarrow> real list list \<Rightarrow> error + (real list \<times> real list) list" where
  "trajectory self [] = Inr []"
| "trajectory self (action # actions) =
     (case control_step self action of
        Inl e \<Rightarrow> Inl e
      | Inr self' \<Rightarrow>
          (case trajectory self' actions of
             Inl e \<Rightarrow> Inl e
           | Inr states \<Rightarrow> Inr (get_state (cpg_network self') # states)))"

text \<open>
  Two flies have the same setup when they agree on the configuration (baseline
  frequencies, timestep, coupling, phase biases, convergence rates) and on the
  oscillator state. The seed is not part of it, nor are the network's current
  intrinsic parameters, which every control step overwrites before use.
\<close>

definition same_setup :: "HybridTurningFly \<Rightarrow> HybridTurningFly \<Rightarrow> bool" where
  "same_setup a b =
     (self_intrinsic_freqs a = self_intrinsic_freqs b
      \<and> timestep (cpg_network a) = timestep (cpg_network b)
      \<and> coupling_weights (cpg_network a) = coupling_weights (cpg_network b)
      \<and> phase_biases (cpg_network a) = phase_biases (cpg_network b)
      \<and> convergence_coefs (cpg_network a) = convergence_coefs (cpg_network b)
      \<and> get_state (cpg_network a) = get_state (cpg_network b))"

section \<open>Double-precision arithmetic\<close>

text \<open>Rounding to the nearest integer, ties to the even one.\<close>

definition round_half_even :: "real \<Rightarrow> int" where
  "round_half_even x =
     (let f = \<lfloor>x\<rfloor>; r = x - of_int f
      in if r < 1 / 2 then f else if r > 1 / 2 then f + 1 else if even f then f else f + 1)"

text \<open>
  The double nearest to a real number (IEEE 754 binary64, round to nearest, ties to
  even). The magnitude is measured in units of \<open>2\<^sup>-\<^sup>1\<^sup>0\<^sup>7\<^sup>4\<close>, the smallest subnormal; a
  magnitude of more than 53 bits loses the bits beyond the 53rd. Overflow to infinity
  is not modelled: no value of the notebooks comes near \<open>2\<^sup>1\<^sup>0\<^sup>2\<^sup>4\<close>.
\<close>

definition round_double :: "real \<Rightarrow> real" where
  "round_double x =
     (let k = nat (max 0 (bitlen \<lfloor>\<bar>x\<bar> * 2 ^ 1074\<rfloor> - 53))
      in of_int (round_half_even (x * 2 ^ 1074 / 2 ^ k)) * 2 ^ k / 2 ^ 1074)"

text \<open>The arithmetic operations on doubles: the exact result, rounded.\<close>

definition double_add :: "real \<Rightarrow> real \<Rightarrow> real" where
  "double_add a b = round_double (a + b)"

definition double_sub :: "real \<Rightarrow> real \<Rightarrow> real" where
  "double_sub a b = round_double (a - b)"

definition double_mul :: "real \<Rightarrow> real \<Rightarrow> real" where
  "double_mul a b = round_double (a * b)"

definition double_div :: "real \<Rightarrow> real \<Rightarrow> real" where
  "double_div a b = round_double (a / b)"

section \<open>The zig-zag descending signals\<close>

text \<open>
  C's \<open>fmod\<close>, which is exact: the remainder of the quotient truncated towards 0.
\<close>

definition fmod :: "real \<Rightarrow> real \<Rightarrow> real" where
  "fmod x y = x - y * of_int (if 0 \<le> x / y then \<lfloor>x / y\<rfloor> else \<lceil>x / y\<rceil>)"

text \<open>
  Numpy's \<open>%\<close> on doubles, for a divisor other than 0: \<open>fmod\<close>, moved by the divisor
  when its sign differs from the divisor's, so that the result has the divisor's sign.
\<close>

definition py_mod :: "real \<Rightarrow> real \<Rightarrow> real" where
  "py_mod x y =
     (let m = fmod x y
      in if m \<noteq> 0 \<and> ((y < 0) \<noteq> (m < 0)) then double_add m y else m)"

text \<open>
  \<open>np.arange(start, stop, step)\<close> on doubles, for a positive step:
  \<open>ceil((stop - start) / step)\<close> entries, entry \<open>i\<close> being \<open>start + i * step\<close>. (Numpy
  fills the array from its first two entries; from \<open>start = 0\<close>, as in the notebook,
  that gives these values.)
\<close>

definition arange :: "real \<Rightarrow> real \<Rightarrow> real \<Rightarrow> real list" where
  "arange start stop stp =
     map (\<lambda>i. double_add start (double_mul (real i) stp))
         [0..<nat \<lceil>double_div (double_sub stop start) stp\<rceil>]"

text \<open>The notebook's \<open>timestep = 1e-4\<close> and \<open>t = np.arange(0, 1.2, timestep)\<close>.\<close>

definition notebook_timestep :: real where
  "notebook_timestep = round_double (1 / 10000)"

definition t_samples :: "real list" where
  "t_samples = arange 0 (round_double (12 / 10)) notebook_timestep"

text \<open>
  \<^verbatim>\<open>right_descending_signal = ((t - 0.2) % 0.8 > 0.4) * 1.2 + 0.2\<close> and
  \<^verbatim>\<open>left_descending_signal = 1.6 - right_descending_signal\<close>, element by element;
  the comparison yields 1 for true and 0 for false.
\<close>

definition right_signal_at :: "real \<Rightarrow> real" where
  "right_signal_at t =
     double_add
       (double_mul
          (of_bool (py_mod (double_sub t (round_double (2 / 10))) (round_double (8 / 10))
                      > round_double (4 / 10)))
          (round_double (12 / 10)))
       (round_double (2 / 10))"

definition right_descending_signal :: "real list" where
  "right_descending_signal = map right_signal_at t_samples"

definition left_descending_signal :: "real list" where
  "left_descending_signal =
     map (\<lambda>r. double_sub (round_double (16 / 10)) r) right_descending_signal"

text \<open>\<open>np.column_stack\<close>: row \<open>k\<close> is \<open>[left[k], right[k]]\<close>.\<close>

definition descending_signals :: "real list list" where
  "descending_signals = map (\<lambda>(l, r). [l, r]) (zip left_descending_signal right_descending_signal)"

text \<open>
  The multi-fly loop steps the simulation once per row with the action dictionary
  \<^verbatim>\<open>{"Nuro": np.zeros(2), "McFly": action_mcfly}\<close>; both flies are
  \<open>HybridTurningFly\<close> instances. Each entry pairs Nuro's action with McFly's.
\<close>

definition multifly_actions :: "(real list \<times> real list) list" where
  "multifly_actions = map (\<lambda>action_mcfly. (replicate 2 0, action_mcfly)) descending_signals"

section \<open>The ommatidia comparison figure\<close>

text \<open>\<open>(readings < threshold).sum()\<close>: the number of readings below the threshold.\<close>

definition threshold :: real where
  "threshold = 75 / 100"

definition count_dimmed :: "real list \<Rightarrow> nat" where
  "count_dimmed readings = length (filter (\<lambda>x. x < threshold) readings)"

text \<open>Decimal rendering of a count, as the f-string does.\<close>

fun str_nat :: "nat \<Rightarrow> string" where
  "str_nat n =
     (if n < 10 then [char_of (48 + n)]
      else str_nat (n div 10) @ [char_of (48 + n mod 10)])"

text \<open>
  The title of the figure,
  \<^verbatim>\<open>f"L ({ommatidia_l}) {'<>'[int(ommatidia_l > ommatidia_l)]} R ({ommatidia_r}) -> turn {'RL'[int(ommatidia_l > ommatidia_l)]}"\<close>,
  from the per-eye readings (\<open>ommatidia_readings[0]\<close> is the left eye).
\<close>

definition suptitle :: "real list list \<Rightarrow> error + string" where
  "suptitle ommatidia_readings =
     (if length ommatidia_readings < 1 then Inl IndexError
      else let ommatidia_l = count_dimmed (ommatidia_readings ! 0)
           in if length ommatidia_readings < 2 then Inl IndexError
              else let ommatidia_r = count_dimmed (ommatidia_readings ! 1)
                   in Inr (''L ('' @ str_nat ommatidia_l @ '') ''
                           @ [''<>'' ! of_bool (ommatidia_l > ommatidia_l)]
                           @ '' R ('' @ str_nat ommatidia_r @ '') -> turn ''
                           @ [''RL'' ! of_bool (ommatidia_l > ommatidia_l)]))"

section \<open>A sample configuration\<close>

text \<open>
  Six oscillators at 12 Hz with convergence rate 20 per second and the 0.1 ms timestep
  of the notebooks, all amplitudes and phases at 0, and no coupling. The second fly
  differs only in its configured amplitudes, which are 2.
\<close>

definition sample_network :: CPGNetwork where
  "sample_network =
     \<lparr>timestep = 1 / 10000,
      intrinsic_freqs = [12, 12, 12, 12, 12, 12],
      intrinsic_amps = [1, 1, 1, 1, 1, 1],
      coupling_weights = replicate 6 (replicate 6 0),
      phase_biases = replicate 6 (replicate 6 0),
      convergence_coefs = [20, 20, 20, 20, 20, 20],
      seed = 0,
      curr_phases = [0, 0, 0, 0, 0, 0],
      curr_magnitudes = [0, 0, 0, 0, 0, 0]\<rparr>"

definition sample_fly :: HybridTurningFly where
  "sample_fly = \<lparr>self_intrinsic_freqs = [12, 12, 12, 12, 12, 12], cpg_network = sample_network\<rparr>"

definition sample_fly_amp2 :: HybridTurningFly where
  "sample_fly_amp2 =
     sample_fly\<lparr>cpg_network := sample_network\<lparr>intrinsic_amps := [2, 2, 2, 2, 2, 2]\<rparr>\<rparr>"

section \<open>Helper lemmas for the turning modulation\<close>

lemma repeat3_abs_pair:
  "repeat3_abs [dl, dr] = [\<bar>dl\<bar>, \<bar>dl\<bar>, \<bar>dl\<bar>, \<bar>dr\<bar>, \<bar>dr\<bar>, \<bar>dr\<bar>]"
  by (simp add: repeat3_abs_def numeral_3_eq_3)

lemma scale_sign_eq: "x * (if d > 0 then 1 else - 1) = signed_freq d (x::real)"
  by (simp add: signed_freq_def)

lemma take_scaled_prefix: "take n (map f (take n xs) @ drop n xs) = map f (take n xs)"
  by (cases "n \<le> length xs") simp_all

lemma drop_scaled_prefix: "drop n (map f (take n xs) @ drop n xs) = drop n xs"
  by (cases "n \<le> length xs") simp_all

lemma overrides_pair:
  "compute_intrinsic_overrides self [dl, dr] =
     Inr (map (signed_freq dl) (take 3 (self_intrinsic_freqs self))
            @ map (signed_freq dr) (drop 3 (self_intrinsic_freqs self)),
          [\<bar>dl\<bar>, \<bar>dl\<bar>, \<bar>dl\<bar>, \<bar>dr\<bar>, \<bar>dr\<bar>, \<bar>dr\<bar>])"
  unfolding compute_intrinsic_overrides_def Let_def scale_upto3_def scale_from3_def
    repeat3_abs_pair scale_sign_eq take_scaled_prefix drop_scaled_prefix
  by simp


lemma update_pair:
  "update_cpg_intrinsics self [dl, dr] =
     Inr (self\<lparr>cpg_network := (cpg_network self)
            \<lparr>intrinsic_amps := [\<bar>dl\<bar>, \<bar>dl\<bar>, \<bar>dl\<bar>, \<bar>dr\<bar>, \<bar>dr\<bar>, \<bar>dr\<bar>],
             intrinsic_freqs := map (signed_freq dl) (take 3 (self_intrinsic_freqs self))
                                @ map (signed_freq dr) (drop 3 (self_intrinsic_freqs self))\<rparr>\<rparr>)"
  by (simp add: update_cpg_intrinsics_def overrides_pair)

lemma signed_freq_zero: "signed_freq 0 = uminus"
  by (rule ext) (simp add: signed_freq_def)

lemma signed_freq_flip: "d \<noteq> 0 \<Longrightarrow> signed_freq (- d) x = - signed_freq d x"
  by (simp add: signed_freq_def)

lemma nth_sided:
  "i < length fs \<Longrightarrow>
   (map f (take 3 fs) @ map g (drop 3 fs)) ! i = (if i < 3 then f (fs ! i) else g (fs ! i))"
  by (auto simp: nth_append min_def)

lemma length_sided: "length (map f (take n fs) @ map g (drop n fs)) = length fs"
  by (cases "n \<le> length fs") simp_all

lemma take_sided: "take n (map f (take n fs) @ map g (drop n fs)) = map f (take n fs)"
  by (cases "n \<le> length fs") simp_all

lemma drop_sided: "drop n (map f (take n fs) @ map g (drop n fs)) = map g (drop n fs)"
  by (cases "n \<le> length fs") simp_all

lemma overrides_forward:
  assumes "0 < dl" "0 < dr"
  shows "compute_intrinsic_overrides self [dl, dr]
           = Inr (self_intrinsic_freqs self, [dl, dl, dl, dr, dr, dr])"
proof -
  have "signed_freq dl = (\<lambda>x. x)" "signed_freq dr = (\<lambda>x. x)"
    using assms by (auto simp: signed_freq_def fun_eq_iff)
  with assms show ?thesis by (simp add: overrides_pair)
qed

section \<open>Claims about the turning modulation\<close>

text \<open>
  C1, as the code has it. When a side's steering value is 0, that side's three
  intrinsic amplitudes are 0 and its intrinsic frequencies are the negated baseline
  \<open>-\<nu>\<^sub>i\<close>: the test \<open>\<delta> > 0\<close> is strict, so 0 takes the "otherwise" branch. Stated for
  the left side (\<open>[0, \<delta>\<^sub>R]\<close>) and for the right side (\<open>[\<delta>\<^sub>L, 0]\<close>).
\<close>

theorem zero_signal_amplitude_zero_frequency_negated:
  "compute_intrinsic_overrides self [0, dr] =
     Inr (map uminus (take 3 (self_intrinsic_freqs self))
            @ map (signed_freq dr) (drop 3 (self_intrinsic_freqs self)),
          [0, 0, 0, \<bar>dr\<bar>, \<bar>dr\<bar>, \<bar>dr\<bar>])
   \<and> compute_intrinsic_overrides self [dl, 0] =
     Inr (map (signed_freq dl) (take 3 (self_intrinsic_freqs self))
            @ map uminus (drop 3 (self_intrinsic_freqs self)),
          [\<bar>dl\<bar>, \<bar>dl\<bar>, \<bar>dl\<bar>, 0, 0, 0])"
  by (simp add: overrides_pair signed_freq_zero)

text \<open>
  C1 at the command \<open>[0, 1]\<close> with all baselines at 12 Hz: the left frequencies come
  out as -12, not as the un-negated baseline 12.
\<close>

theorem zero_signal_frequency_not_baseline:
  "compute_intrinsic_overrides sample_fly [0, 1]
     = Inr ([- 12, - 12, - 12, 12, 12, 12], [0, 0, 0, 1, 1, 1])
   \<and> [- 12, - 12, - 12] \<noteq> take 3 (self_intrinsic_freqs sample_fly)"
  by (simp add: overrides_pair sample_fly_def signed_freq_def)

text \<open>
  C2, as the code has it. For every steering command \<open>[\<delta>\<^sub>L, \<delta>\<^sub>R]\<close> the amplitude
  vector is \<open>|\<delta>\<^sub>L|\<close> three times, then \<open>|\<delta>\<^sub>R|\<close> three times, and this is what the network's
  intrinsic amplitudes become, whatever amplitudes the network was configured with.
\<close>

theorem amplitude_is_abs_signal:
  "(\<exists>freqs. compute_intrinsic_overrides self [dl, dr]
       = Inr (freqs, [\<bar>dl\<bar>, \<bar>dl\<bar>, \<bar>dl\<bar>, \<bar>dr\<bar>, \<bar>dr\<bar>, \<bar>dr\<bar>]))
   \<and> (\<exists>self'. update_cpg_intrinsics self [dl, dr] = Inr self'
        \<and> intrinsic_amps (cpg_network self') = [\<bar>dl\<bar>, \<bar>dl\<bar>, \<bar>dl\<bar>, \<bar>dr\<bar>, \<bar>dr\<bar>, \<bar>dr\<bar>])"
  by (simp add: overrides_pair update_pair)

text \<open>
  C2 at the command \<open>[1, 1]\<close> for a network configured with amplitudes 2: the
  amplitudes written are 1, while \<open>|\<delta>|\<close> times the configured amplitude is 2.
\<close>

theorem amplitude_ignores_configured_amplitude:
  "compute_intrinsic_overrides sample_fly_amp2 [1, 1]
     = Inr ([12, 12, 12, 12, 12, 12], [1, 1, 1, 1, 1, 1])
   \<and> \<bar>1\<bar> * (intrinsic_amps (cpg_network sample_fly_amp2) ! 0) = 2
   \<and> [1, 1, 1, 1, 1, 1 :: real] ! 0 \<noteq> \<bar>1\<bar> * (intrinsic_amps (cpg_network sample_fly_amp2) ! 0)"
  by (simp add: overrides_pair sample_fly_amp2_def sample_fly_def signed_freq_def)

text \<open>
  C3. For every steering command \<open>[\<delta>\<^sub>L, \<delta>\<^sub>R]\<close> and every oscillator \<open>i\<close>, the frequency
  written to the network is the baseline \<open>\<nu>\<^sub>i\<close> when the governing value (\<open>\<delta>\<^sub>L\<close> for
  \<open>i < 3\<close>, \<open>\<delta>\<^sub>R\<close> from 3 on) is strictly positive and \<open>-\<nu>\<^sub>i\<close> otherwise. The fly's own
  baseline is left as it was, and the result does not depend on what an earlier
  command wrote: after any other command \<open>[\<delta>\<^sub>L\<^sub>0, \<delta>\<^sub>R\<^sub>0]\<close>, the same command gives the
  same fly.
\<close>

theorem frequency_sign_per_side:
  assumes "i < length (self_intrinsic_freqs self)"
  shows "\<exists>self'. update_cpg_intrinsics self [dl, dr] = Inr self'
      \<and> self_intrinsic_freqs self' = self_intrinsic_freqs self
      \<and> length (intrinsic_freqs (cpg_network self')) = length (self_intrinsic_freqs self)
      \<and> intrinsic_freqs (cpg_network self') ! i =
          (if (if i < 3 then dl else dr) > 0 then self_intrinsic_freqs self ! i
           else - (self_intrinsic_freqs self ! i))
      \<and> (\<forall>dl0 dr0. \<exists>self0. update_cpg_intrinsics self [dl0, dr0] = Inr self0
            \<and> update_cpg_intrinsics self0 [dl, dr] = Inr self')"
  using assms
  by (simp add: update_pair nth_sided length_sided signed_freq_def del: length_append)

theorem frequency_sign_per_side_witness:
  "1 < length (self_intrinsic_freqs sample_fly) \<and> 4 < length (self_intrinsic_freqs sample_fly)
   \<and> (\<exists>self'. update_cpg_intrinsics sample_fly [- 1, 1] = Inr self'
        \<and> intrinsic_freqs (cpg_network self') ! 1 = - 12
        \<and> intrinsic_freqs (cpg_network self') ! 4 = 12)"
proof -
  have h1: "1 < length (self_intrinsic_freqs sample_fly)"
    and h4: "4 < length (self_intrinsic_freqs sample_fly)"
    by (simp_all add: sample_fly_def)
  from frequency_sign_per_side[OF h1, of "- 1" 1] frequency_sign_per_side[OF h4, of "- 1" 1]
  have "\<exists>self'. update_cpg_intrinsics sample_fly [- 1, 1] = Inr self'
        \<and> intrinsic_freqs (cpg_network self') ! 1 = - 12
        \<and> intrinsic_freqs (cpg_network self') ! 4 = 12"
    by (auto simp: sample_fly_def)
  with h1 h4 show ?thesis by blast
qed

text \<open>
  C6, for a steering value other than 0. Replacing one side's value \<open>\<delta> \<noteq> 0\<close> by
  \<open>-\<delta>\<close> negates that side's frequencies and leaves the other side's frequencies and the
  whole amplitude vector as they were. Stated for a flip on the left and on the right.
\<close>

theorem sign_flip_negates_side_frequencies:
  assumes "d \<noteq> 0"
  shows "(\<exists>f a f'. compute_intrinsic_overrides self [d, dr] = Inr (f, a)
            \<and> compute_intrinsic_overrides self [- d, dr] = Inr (f', a)
            \<and> take 3 f' = map uminus (take 3 f) \<and> drop 3 f' = drop 3 f)
       \<and> (\<exists>f a f'. compute_intrinsic_overrides self [dl, d] = Inr (f, a)
            \<and> compute_intrinsic_overrides self [dl, - d] = Inr (f', a)
            \<and> take 3 f' = take 3 f \<and> drop 3 f' = map uminus (drop 3 f))"
  using assms
  by (simp add: overrides_pair signed_freq_flip take_sided drop_sided o_def
      del: take_append drop_append)

theorem sign_flip_negates_side_frequencies_witness:
  "(1::real) \<noteq> 0
   \<and> compute_intrinsic_overrides sample_fly [1, 1]
       = Inr ([12, 12, 12, 12, 12, 12], [1, 1, 1, 1, 1, 1])
   \<and> compute_intrinsic_overrides sample_fly [- 1, 1]
       = Inr ([- 12, - 12, - 12, 12, 12, 12], [1, 1, 1, 1, 1, 1])"
  using sign_flip_negates_side_frequencies[of 1 sample_fly 1 1]
  by (simp add: overrides_pair sample_fly_def signed_freq_def)

text \<open>
  C6 at \<open>\<delta> = 0\<close> on the left, with baselines at 12 Hz: the commands \<open>[0, 1]\<close> and
  \<open>[-0, 1]\<close> give the same left frequencies -12, which are not the negation of one
  another.
\<close>

theorem sign_flip_fails_at_zero:
  "compute_intrinsic_overrides sample_fly [0, 1]
     = Inr ([- 12, - 12, - 12, 12, 12, 12], [0, 0, 0, 1, 1, 1])
   \<and> compute_intrinsic_overrides sample_fly [- 0, 1]
     = Inr ([- 12, - 12, - 12, 12, 12, 12], [0, 0, 0, 1, 1, 1])
   \<and> take 3 [- 12, - 12, - 12, 12, 12, 12 :: real]
       \<noteq> map uminus (take 3 [- 12, - 12, - 12, 12, 12, 12])"
  by (simp add: overrides_pair sample_fly_def signed_freq_def)

section \<open>Claims about the ommatidia comparison figure\<close>

text \<open>
  C9. The figure compares the left count with itself, so for all readings of the two
  eyes the title shows \<open><\<close> and \<open>turn R\<close>, whichever eye has more dimmed ommatidia.
\<close>

theorem suptitle_always_turn_right:
  "suptitle (left_eye # right_eye # rest) =
     Inr (''L ('' @ str_nat (count_dimmed left_eye) @ '') < R (''
          @ str_nat (count_dimmed right_eye) @ '') -> turn R'')"
  by (simp add: suptitle_def Let_def)

text \<open>With three dimmed ommatidia on the left and one on the right, the title still
  says to turn right.\<close>

lemma suptitle_left_heavy: "suptitle [[0, 0, 0], [1, 1, 0]] = Inr ''L (3) < R (1) -> turn R''"
  by code_simp

section \<open>Helper lemmas for the oscillator network\<close>

lemma wrap_phase_range: "0 \<le> wrap_phase \<theta> \<and> wrap_phase \<theta> < 2 * pi"
proof -
  define p :: real where "p = 2 * pi"
  have p: "0 < p" by (simp add: p_def)
  define k where "k = \<lfloor>\<theta> / p\<rfloor>"
  have lo: "of_int k \<le> \<theta> / p" and hi: "\<theta> / p < of_int k + 1"
    by (simp_all add: k_def)
  from lo p have "of_int k * p \<le> \<theta>" by (simp add: le_divide_eq)
  moreover from hi p have "\<theta> < (of_int k + 1) * p" by (simp add: divide_less_eq)
  ultimately have "0 \<le> \<theta> - p * of_int k \<and> \<theta> - p * of_int k < p"
    by (simp add: algebra_simps)
  then show ?thesis by (simp add: wrap_phase_def p_def k_def)
qed

lemma step_state_ok: "state_ok (get_state (step net))"
  by (auto simp: state_ok_def get_state_def step_def wrap_phase_range)

lemma control_step_pair:
  "\<exists>self'. control_step self [dl, dr] = Inr self' \<and> state_ok (get_state (cpg_network self'))"
  by (simp add: control_step_def update_pair step_state_ok)

lemma length2_pair: "length a = 2 \<Longrightarrow> \<exists>dl dr. a = [dl, dr]"
  by (cases a; cases "tl a") auto

lemma trajectory_ok:
  "\<forall>a \<in> set actions. length a = 2 \<Longrightarrow>
   \<exists>states. trajectory self actions = Inr states \<and> length states = length actions
        \<and> (\<forall>st \<in> set states. state_ok st)"
proof (induction actions arbitrary: self)
  case Nil
  then show ?case by simp
next
  case (Cons a actions)
  from Cons.prems have "length a = 2" by simp
  then obtain dl dr where a: "a = [dl, dr]"
    using length2_pair by blast
  obtain self' where s: "control_step self a = Inr self'"
      and ok: "state_ok (get_state (cpg_network self'))"
    using control_step_pair a by blast
  from Cons.prems have "\<forall>a \<in> set actions. length a = 2" by simp
  from Cons.IH[OF this, of self'] obtain states where
    "trajectory self' actions = Inr states" "length states = length actions"
    "\<forall>st \<in> set states. state_ok st" by blast
  with s ok show ?case by simp
qed

lemma overrides_same:
  "self_intrinsic_freqs a = self_intrinsic_freqs b \<Longrightarrow>
   compute_intrinsic_overrides a action = compute_intrinsic_overrides b action"
  by (simp add: compute_intrinsic_overrides_def)

lemma step_same:
  assumes "timestep m = timestep n" "coupling_weights m = coupling_weights n"
    "phase_biases m = phase_biases n" "convergence_coefs m = convergence_coefs n"
    "curr_phases m = curr_phases n" "curr_magnitudes m = curr_magnitudes n"
    "intrinsic_freqs m = intrinsic_freqs n" "intrinsic_amps m = intrinsic_amps n"
  shows "get_state (step m) = get_state (step n)"
  using assms
  by (simp add: get_state_def step_def phase_rate_def magnitude_rate_def num_oscillators_def)

lemma step_frame:
  "timestep (step n) = timestep n" "coupling_weights (step n) = coupling_weights n"
  "phase_biases (step n) = phase_biases n" "convergence_coefs (step n) = convergence_coefs n"
  "intrinsic_amps (step n) = intrinsic_amps n" "intrinsic_freqs (step n) = intrinsic_freqs n"
  "seed (step n) = seed n"
  by (simp_all add: step_def)

lemma control_step_same:
  assumes "same_setup a b"
  shows "(\<exists>e. control_step a action = Inl e \<and> control_step b action = Inl e)
       \<or> (\<exists>a' b'. control_step a action = Inr a' \<and> control_step b action = Inr b'
             \<and> same_setup a' b')"
proof (cases "compute_intrinsic_overrides a action")
  case (Inl e)
  from assms have "compute_intrinsic_overrides b action = Inl e"
    using overrides_same[of a b action] Inl by (simp add: same_setup_def)
  with Inl show ?thesis
    by (simp add: control_step_def update_cpg_intrinsics_def)
next
  case (Inr fa)
  obtain f am where fa: "fa = (f, am)" by (cases fa)
  from assms have eq: "compute_intrinsic_overrides b action = Inr (f, am)"
    using overrides_same[of a b action] Inr fa by (simp add: same_setup_def)
  have "get_state (step ((cpg_network a)\<lparr>intrinsic_amps := am, intrinsic_freqs := f\<rparr>))
      = get_state (step ((cpg_network b)\<lparr>intrinsic_amps := am, intrinsic_freqs := f\<rparr>))"
    using assms by (intro step_same) (simp_all add: same_setup_def get_state_def)
  with assms Inr fa eq show ?thesis
    by (simp add: control_step_def update_cpg_intrinsics_def same_setup_def step_frame)
qed

lemma trajectory_same:
  "same_setup a b \<Longrightarrow> trajectory a actions = trajectory b actions"
proof (induction actions arbitrary: a b)
  case Nil
  then show ?case by simp
next
  case (Cons action actions)
  from control_step_same[OF Cons.prems, of action] show ?case
  proof (elim disjE exE conjE)
    fix e assume "control_step a action = Inl e" "control_step b action = Inl e"
    then show ?thesis by simp
  next
    fix a' b'
    assume s: "control_step a action = Inr a'" "control_step b action = Inr b'"
      and r: "same_setup a' b'"
    from r have "get_state (cpg_network a') = get_state (cpg_network b')"
      by (simp add: same_setup_def)
    with Cons.IH[OF r] s show ?thesis by (simp split: sum.splits)
  qed
qed

section \<open>Claims about the oscillator network\<close>

text \<open>
  C4. After every call to \<open>step()\<close> every phase lies in [0, 2\<pi>) and every amplitude
  is at least 0: one step establishes the invariant from any state, so in particular
  from a state that satisfies it. In a run of the control loop over well-formed
  commands (two values each), every step returns and every state observed after a step
  satisfies the invariant.
\<close>

theorem step_establishes_state_invariant:
  "state_ok (get_state (step net))
   \<and> ((\<forall>a \<in> set actions. length a = 2) \<longrightarrow>
      (\<exists>states. trajectory self actions = Inr states \<and> length states = length actions
         \<and> (\<forall>st \<in> set states. state_ok st)))"
  using step_state_ok trajectory_ok by blast

theorem step_establishes_state_invariant_witness:
  "state_ok (get_state (step sample_network))
   \<and> length [1, 1 :: real] = 2 \<and> length [2 / 10, 14 / 10 :: real] = 2
   \<and> (\<exists>states. trajectory sample_fly [[1, 1], [2 / 10, 14 / 10]] = Inr states
         \<and> length states = 2 \<and> (\<forall>st \<in> set states. state_ok st))"
  using step_establishes_state_invariant[of sample_network "[[1, 1], [2 / 10, 14 / 10]]" sample_fly]
  by (simp del: trajectory.simps add: numeral_2_eq_2)

text \<open>
  C5. Two runs from the same setup (configuration and initial oscillator state) over
  the same sequence of steering commands give the same result: the same error, or the
  same phase and amplitude state after every step. The seed is not part of the setup,
  so stepping does not depend on it.
\<close>

theorem trajectory_deterministic:
  "same_setup a b \<Longrightarrow> trajectory a actions = trajectory b actions"
  by (rule trajectory_same)

theorem trajectory_deterministic_witness:
  "same_setup sample_fly (sample_fly\<lparr>cpg_network := sample_network\<lparr>seed := 42\<rparr>\<rparr>)
   \<and> trajectory sample_fly [[1, 1], [- 1, 1]]
     = trajectory (sample_fly\<lparr>cpg_network := sample_network\<lparr>seed := 42\<rparr>\<rparr>) [[1, 1], [- 1, 1]]"
proof -
  have h: "same_setup sample_fly (sample_fly\<lparr>cpg_network := sample_network\<lparr>seed := 42\<rparr>\<rparr>)"
    by (simp add: same_setup_def sample_fly_def get_state_def)
  from trajectory_deterministic[OF h] h show ?thesis by blast
qed

text \<open>
  C7. \<open>reset\<close> raises \<open>InvalidStateError\<close> exactly when a supplied vector has a length
  other than \<open>N\<close> or a supplied amplitude is negative; on that error the network is
  unchanged; otherwise the state becomes exactly the supplied phases and amplitudes.
  In particular a phase vector of length \<open>N - 1\<close> is rejected.
\<close>

theorem reset_validates_and_sets_state:
  "(fst (reset net phases amps) = Some InvalidStateError \<longleftrightarrow>
      (length phases \<noteq> num_oscillators net \<or> length amps \<noteq> num_oscillators net
       \<or> (\<exists>a \<in> set amps. a < 0)))
   \<and> (fst (reset net phases amps) = Some InvalidStateError \<longrightarrow> snd (reset net phases amps) = net)
   \<and> (fst (reset net phases amps) \<noteq> Some InvalidStateError \<longrightarrow>
        reset net phases amps = (None, net\<lparr>curr_phases := phases, curr_magnitudes := amps\<rparr>)
        \<and> get_state (snd (reset net phases amps)) = (phases, amps))
   \<and> (Suc (length phases) = num_oscillators net \<longrightarrow>
        reset net phases amps = (Some InvalidStateError, net))"
  by (auto simp: reset_def get_state_def)

theorem reset_validates_and_sets_state_witness:
  "Suc (length [0, 0, 0, 0, 0 :: real]) = num_oscillators sample_network
   \<and> reset sample_network [0, 0, 0, 0, 0] [1, 1, 1, 1, 1, 1] = (Some InvalidStateError, sample_network)
   \<and> fst (reset sample_network [0, 0, 0, 0, 0, 0] [1, 1, 1, 1, 1, - 1]) = Some InvalidStateError
   \<and> snd (reset sample_network [0, 0, 0, 0, 0, 0] [1, 1, 1, 1, 1, - 1]) = sample_network
   \<and> fst (reset sample_network [1, 2, 3, 4, 5, 6] [1, 1, 1, 1, 1, 1]) \<noteq> Some InvalidStateError
   \<and> get_state (snd (reset sample_network [1, 2, 3, 4, 5, 6] [1, 1, 1, 1, 1, 1]))
       = ([1, 2, 3, 4, 5, 6], [1, 1, 1, 1, 1, 1])"
  using reset_validates_and_sets_state[of sample_network "[0, 0, 0, 0, 0]" "[1, 1, 1, 1, 1, 1]"]
    reset_validates_and_sets_state[of sample_network "[0, 0, 0, 0, 0, 0]" "[1, 1, 1, 1, 1, - 1]"]
    reset_validates_and_sets_state[of sample_network "[1, 2, 3, 4, 5, 6]" "[1, 1, 1, 1, 1, 1]"]
  by (simp add: num_oscillators_def sample_network_def)

section \<open>Convergence of the amplitudes\<close>

lemma pow_decay:
  fixes x :: real
  assumes "0 \<le> x" "x \<le> 1"
  shows "(1 - x) ^ m * (1 + real m * x) \<le> 1"
proof -
  have "1 + real m * x \<le> (1 + x) ^ m"
    by (rule Bernoulli_inequality) (use assms in simp)
  moreover have "0 \<le> (1 - x) ^ m" using assms by simp
  ultimately have "(1 - x) ^ m * (1 + real m * x) \<le> (1 - x) ^ m * (1 + x) ^ m"
    by (rule mult_left_mono)
  also have "\<dots> = ((1 - x) * (1 + x)) ^ m" by (simp add: power_mult_distrib)
  also have "\<dots> \<le> 1"
  proof (rule power_le_one)
    show "0 \<le> (1 - x) * (1 + x)" using assms by simp
    have "(1 - x) * (1 + x) = 1 - x * x" by (simp add: algebra_simps)
    also have "\<dots> \<le> 1" by simp
    finally show "(1 - x) * (1 + x) \<le> 1" .
  qed
  finally show ?thesis .
qed

lemma decay_4999:
  fixes a :: real
  assumes "a = 499 / 500"
  shows "a ^ 4999 \<le> 1 / 20"
proof -
  have a: "0 \<le> a" "a \<le> 1" by (simp_all add: assms)
  have e1: "1 - (1 - a) = a" by simp
  have e2: "1 + real 500 * (1 - a) = 2" by (simp add: assms)
  have "(1 - (1 - a)) ^ 500 * (1 + real 500 * (1 - a)) \<le> 1"
    by (rule pow_decay) (simp_all add: assms)
  then have "a ^ 500 * 2 \<le> 1" by (simp only: e1 e2)
  then have h: "a ^ 500 \<le> 1 / 2" by linarith
  have "a ^ 4999 \<le> a ^ (500 * 9)"
    by (rule power_decreasing) (simp_all add: a)
  also have "\<dots> = (a ^ 500) ^ 9" by (rule power_mult)
  also have "\<dots> \<le> (1 / 2) ^ 9"
    by (rule power_mono[OF h]) (simp add: a)
  also have "\<dots> \<le> 1 / 20" by (simp add: power_divide)
  finally show ?thesis .
qed

lemma euler_amp_aux:
  "r + 1 / 10000 * (20 * (1 - r)) \<le> (r'::real) \<Longrightarrow> 1 - r' \<le> (1 - r) * (499 / 500)"
  by argo

lemma euler_amp_step:
  fixes r :: real
  assumes "a = 499 / 500" "r' = max 0 (r + 1 / 10000 * (20 * (1 - r)))"
  shows "0 \<le> r'" and "0 \<le> b \<Longrightarrow> 1 - r \<le> b \<Longrightarrow> 1 - r' \<le> b * a"
proof -
  show "0 \<le> r'" by (simp add: assms)
  assume "0 \<le> b" "1 - r \<le> b"
  have "r + 1 / 10000 * (20 * (1 - r)) \<le> r'" by (simp add: assms)
  then have "1 - r' \<le> (1 - r) * (499 / 500)" by (rule euler_amp_aux)
  also have "\<dots> \<le> b * (499 / 500)" using \<open>1 - r \<le> b\<close> by simp
  finally show "1 - r' \<le> b * a" by (simp add: assms)
qed


lemma six_ones: "[1, 1, 1, 1, 1, 1] = replicate 6 (1::real)"
  by (simp add: numeral_eq_Suc)

lemma control_step_hold:
  assumes "timestep (cpg_network self) = 1 / 10000"
    and "convergence_coefs (cpg_network self) = replicate 6 20"
  shows "\<exists>self'. control_step self [1, 1] = Inr self'
      \<and> timestep (cpg_network self') = 1 / 10000
      \<and> convergence_coefs (cpg_network self') = replicate 6 20
      \<and> intrinsic_amps (cpg_network self') = replicate 6 1
      \<and> length (curr_magnitudes (cpg_network self')) = 6
      \<and> (\<forall>i<6. curr_magnitudes (cpg_network self') ! i
             = max 0 (curr_magnitudes (cpg_network self) ! i
                      + 1 / 10000 * (20 * (1 - curr_magnitudes (cpg_network self) ! i))))"
  by (simp add: control_step_def update_pair step_def magnitude_rate_def num_oscillators_def
      six_ones assms)


lemma run_hold:
  assumes "a = 499 / 500"
    and "timestep (cpg_network self) = 1 / 10000"
    and "convergence_coefs (cpg_network self) = replicate 6 20"
    and "0 \<le> b"
    and "\<forall>i<6. 0 \<le> curr_magnitudes (cpg_network self) ! i
               \<and> 1 - curr_magnitudes (cpg_network self) ! i \<le> b"
  shows "\<exists>self'. run_steps self (replicate n [1, 1]) = Inr self'
      \<and> (\<forall>i<6. 0 \<le> curr_magnitudes (cpg_network self') ! i
               \<and> 1 - curr_magnitudes (cpg_network self') ! i \<le> b * a ^ n)
      \<and> (0 < n \<longrightarrow> intrinsic_amps (cpg_network self') = replicate 6 1
                   \<and> length (curr_magnitudes (cpg_network self')) = 6)"
  using assms(2-)
proof (induction n arbitrary: self b)
  case 0
  then show ?case by simp
next
  case (Suc n)
  from control_step_hold[OF Suc.prems(1,2)] obtain s1 where
    s1: "control_step self [1, 1] = Inr s1"
    and t1: "timestep (cpg_network s1) = 1 / 10000"
    and c1: "convergence_coefs (cpg_network s1) = replicate 6 20"
    and a1: "intrinsic_amps (cpg_network s1) = replicate 6 1"
    and l1: "length (curr_magnitudes (cpg_network s1)) = 6"
    and m1: "\<forall>i<6. curr_magnitudes (cpg_network s1) ! i
             = max 0 (curr_magnitudes (cpg_network self) ! i
                      + 1 / 10000 * (20 * (1 - curr_magnitudes (cpg_network self) ! i)))"
    by blast
  have b1: "\<forall>i<6. 0 \<le> curr_magnitudes (cpg_network s1) ! i
               \<and> 1 - curr_magnitudes (cpg_network s1) ! i \<le> b * a"
  proof (intro allI impI)
    fix i :: nat assume i: "i < 6"
    from m1 i have e: "curr_magnitudes (cpg_network s1) ! i
             = max 0 (curr_magnitudes (cpg_network self) ! i
                      + 1 / 10000 * (20 * (1 - curr_magnitudes (cpg_network self) ! i)))"
      by blast
    from Suc.prems(4) i have "1 - curr_magnitudes (cpg_network self) ! i \<le> b" by blast
    with euler_amp_step[OF assms(1) e] Suc.prems(3)
    show "0 \<le> curr_magnitudes (cpg_network s1) ! i
               \<and> 1 - curr_magnitudes (cpg_network s1) ! i \<le> b * a"
      by blast
  qed
  have ba: "0 \<le> b * a" using Suc.prems(3) assms(1) by simp
  from Suc.IH[OF t1 c1 ba b1] obtain s2 where
    s2: "run_steps s1 (replicate n [1, 1]) = Inr s2"
    and b2: "\<forall>i<6. 0 \<le> curr_magnitudes (cpg_network s2) ! i
               \<and> 1 - curr_magnitudes (cpg_network s2) ! i \<le> b * a * a ^ n"
    and a2: "0 < n \<longrightarrow> intrinsic_amps (cpg_network s2) = replicate 6 1
                   \<and> length (curr_magnitudes (cpg_network s2)) = 6"
    by blast
  have "n = 0 \<Longrightarrow> s2 = s1" using s2 by simp
  with a1 l1 a2 have "intrinsic_amps (cpg_network s2) = replicate 6 1
                   \<and> length (curr_magnitudes (cpg_network s2)) = 6"
    by (cases "n = 0") simp_all
  with s1 s2 b2 show ?case by (simp add: mult.assoc)
qed

lemma replicate_5000: "replicate 5000 x = x # replicate 4999 x"
proof -
  have "(5000::nat) = Suc 4999" by simp
  then show ?thesis by (simp only: replicate_Suc)
qed

text \<open>
  C8. For a six-oscillator network with timestep 0.1 ms and all convergence rates 20
  per second, holding the steering command \<open>[1, 1]\<close> for 5000 control steps (which sets
  every target amplitude \<open>R\<^sub>i\<close> to 1 before each forward-Euler step) returns, and every
  amplitude is then at least 0.95 times its target. No condition on the initial
  amplitudes is needed: the first step clamps them at 0.
\<close>

theorem amplitudes_converge_within_5000_steps:
  assumes "timestep (cpg_network self) = 1 / 10000"
    and "convergence_coefs (cpg_network self) = replicate 6 20"
    and "length (curr_magnitudes (cpg_network self)) = 6"
  shows "\<exists>self'. run_steps self (replicate 5000 [1, 1]) = Inr self'
      \<and> intrinsic_amps (cpg_network self') = replicate 6 1
      \<and> length (curr_magnitudes (cpg_network self')) = 6
      \<and> (\<forall>i<6. 95 / 100 * (intrinsic_amps (cpg_network self') ! i)
                 \<le> curr_magnitudes (cpg_network self') ! i)"
proof -
  define a :: real where "a = 499 / 500"
  from control_step_hold[OF assms(1,2)] obtain s1 where
    s1: "control_step self [1, 1] = Inr s1"
    and t1: "timestep (cpg_network s1) = 1 / 10000"
    and c1: "convergence_coefs (cpg_network s1) = replicate 6 20"
    and m1: "\<forall>i<6. curr_magnitudes (cpg_network s1) ! i
             = max 0 (curr_magnitudes (cpg_network self) ! i
                      + 1 / 10000 * (20 * (1 - curr_magnitudes (cpg_network self) ! i)))"
    by blast
  have b1: "\<forall>i<6. 0 \<le> curr_magnitudes (cpg_network s1) ! i
               \<and> 1 - curr_magnitudes (cpg_network s1) ! i \<le> 1"
    using m1 by simp
  from run_hold[OF a_def t1 c1 _ b1, of 4999] obtain s2 where
    s2: "run_steps s1 (replicate 4999 [1, 1]) = Inr s2"
    and b2: "\<forall>i<6. 0 \<le> curr_magnitudes (cpg_network s2) ! i
               \<and> 1 - curr_magnitudes (cpg_network s2) ! i \<le> 1 * a ^ 4999"
    and a2: "intrinsic_amps (cpg_network s2) = replicate 6 1"
    and l2: "length (curr_magnitudes (cpg_network s2)) = 6"
    by auto
  from s1 s2 have run: "run_steps self (replicate 5000 [1, 1]) = Inr s2"
    by (simp add: replicate_5000)
  have "\<forall>i<6. 95 / 100 * (intrinsic_amps (cpg_network s2) ! i)
                 \<le> curr_magnitudes (cpg_network s2) ! i"
  proof (intro allI impI)
    fix i :: nat assume i: "i < 6"
    with b2 have "1 - curr_magnitudes (cpg_network s2) ! i \<le> a ^ 4999" by simp
    with decay_4999[OF a_def] have "95 / 100 \<le> curr_magnitudes (cpg_network s2) ! i"
      by linarith
    with i a2 show "95 / 100 * (intrinsic_amps (cpg_network s2) ! i)
                 \<le> curr_magnitudes (cpg_network s2) ! i" by simp
  qed
  with run a2 l2 show ?thesis by blast
qed

theorem amplitudes_converge_within_5000_steps_witness:
  "timestep (cpg_network sample_fly) = 1 / 10000
   \<and> convergence_coefs (cpg_network sample_fly) = replicate 6 20
   \<and> length (curr_magnitudes (cpg_network sample_fly)) = 6
   \<and> (\<exists>self'. run_steps sample_fly (replicate 5000 [1, 1]) = Inr self'
      \<and> intrinsic_amps (cpg_network self') = replicate 6 1
      \<and> length (curr_magnitudes (cpg_network self')) = 6
      \<and> (\<forall>i<6. 95 / 100 * (intrinsic_amps (cpg_network self') ! i)
                 \<le> curr_magnitudes (cpg_network self') ! i))"
proof -
  have h1: "timestep (cpg_network sample_fly) = 1 / 10000"
    by (simp add: sample_fly_def sample_network_def)
  have h2: "convergence_coefs (cpg_network sample_fly) = replicate 6 20"
    by (simp add: sample_fly_def sample_network_def numeral_eq_Suc)
  have h3: "length (curr_magnitudes (cpg_network sample_fly)) = 6"
    by (simp add: sample_fly_def sample_network_def)
  from amplitudes_converge_within_5000_steps[OF h1 h2 h3] h1 h2 h3 show ?thesis by blast
qed

section \<open>Helper lemmas for double-precision arithmetic\<close>

lemma round_double_zero: "round_double 0 = 0"
  by (simp add: round_double_def round_half_even_def)

lemma bitlen_between:
  assumes "2 ^ w \<le> N" "N < 2 ^ Suc w"
  shows "bitlen N = int (Suc w)"
  using assms
  by (auto simp: bitlen_le_iff_power bitlen_ge_iff_power nat_add_distrib intro!: antisym)

lemma round_double_eval:
  assumes n: "n \<le> 1074" and lo: "2 ^ 52 \<le> \<bar>x\<bar> * 2 ^ n" and hi: "\<bar>x\<bar> * 2 ^ n < 2 ^ 53"
  shows "round_double x = of_int (round_half_even (x * 2 ^ n)) / 2 ^ n"
proof -
  define k where "k = 1074 - n"
  define B :: real where "B = 2 ^ 1074"
  have B: "B = 2 ^ n * 2 ^ k"
    using n by (simp add: B_def k_def flip: power_add)
  define N where "N = \<lfloor>\<bar>x\<bar> * B\<rfloor>"
  have "2 ^ 52 * 2 ^ k \<le> (\<bar>x\<bar> * 2 ^ n) * (2 ^ k :: real)"
    using lo by (intro mult_right_mono) simp_all
  then have lo': "(2::real) ^ (52 + k) \<le> \<bar>x\<bar> * B"
    by (simp add: B power_add mult.assoc)
  have "(\<bar>x\<bar> * 2 ^ n) * (2 ^ k :: real) < 2 ^ 53 * 2 ^ k"
    using hi by (intro mult_strict_right_mono) simp_all
  then have hi': "\<bar>x\<bar> * B < (2::real) ^ (53 + k)"
    by (simp add: B power_add mult.assoc)
  have "real_of_int (2 ^ (52 + k)) \<le> \<bar>x\<bar> * B" using lo' by simp
  then have N1: "2 ^ (52 + k) \<le> N" unfolding N_def by (simp only: le_floor_iff)
  have "\<bar>x\<bar> * B < real_of_int (2 ^ Suc (52 + k))" using hi' by simp
  then have N2: "N < 2 ^ Suc (52 + k)" unfolding N_def by (simp only: floor_less_iff)
  have "bitlen N = int (Suc (52 + k))" by (rule bitlen_between[OF N1 N2])
  then have k: "nat (max 0 (bitlen N - 53)) = k" by simp
  have s: "x * B / 2 ^ k = x * 2 ^ n" by (simp add: B)
  have t: "y * 2 ^ k / B = y / 2 ^ n" for y by (simp add: B)
  have "round_double x = of_int (round_half_even (x * B / 2 ^ k)) * 2 ^ k / B"
    unfolding round_double_def Let_def B_def[symmetric] N_def[symmetric] k ..
  then show ?thesis by (simp only: s t)
qed

text \<open>The literals of the zig-zag cell.\<close>

lemma literal_0_2: "round_double (2 / 10) = 3602879701896397 / 2 ^ 54"
  using round_double_eval[of 55 "2 / 10"] by (simp add: round_half_even_def)

lemma literal_0_4: "round_double (4 / 10) = 3602879701896397 / 2 ^ 53"
  using round_double_eval[of 54 "4 / 10"] by (simp add: round_half_even_def)

lemma literal_0_8: "round_double (8 / 10) = 3602879701896397 / 2 ^ 52"
  using round_double_eval[of 53 "8 / 10"] by (simp add: round_half_even_def)

lemma literal_1_2: "round_double (12 / 10) = 5404319552844595 / 2 ^ 52"
  using round_double_eval[of 52 "12 / 10"] by (simp add: round_half_even_def)

lemma literal_1_4: "round_double (14 / 10) = 3152519739159347 / 2 ^ 51"
  using round_double_eval[of 52 "14 / 10"] by (simp add: round_half_even_def)

lemma literal_1_6: "round_double (16 / 10) = 3602879701896397 / 2 ^ 51"
  using round_double_eval[of 52 "16 / 10"] by (simp add: round_half_even_def)

lemma literal_1e_4: "round_double (1 / 10000) = 7378697629483821 / 2 ^ 66"
  using round_double_eval[of 66 "1 / 10000"] by (simp add: round_half_even_def)

text \<open>Doubles that rounding leaves as they are, and the rounded results of the cell.\<close>

lemma exact_0_2:
  "round_double (3602879701896397 / 2 ^ 54) = 3602879701896397 / 2 ^ 54"
  using round_double_eval[of 55 "3602879701896397 / 2 ^ 54"] by (simp add: round_half_even_def)

lemma exact_1_2:
  "round_double (5404319552844595 / 2 ^ 52) = 5404319552844595 / 2 ^ 52"
  using round_double_eval[of 52 "5404319552844595 / 2 ^ 52"] by (simp add: round_half_even_def)

lemma add_1_2_0_2:
  "round_double (5404319552844595 / 2 ^ 52 + 3602879701896397 / 2 ^ 54) = 3152519739159347 / 2 ^ 51"
  using round_double_eval[of 52 "5404319552844595 / 2 ^ 52 + 3602879701896397 / 2 ^ 54"] by (simp add: round_half_even_def)

lemma sub_1_6_0_2:
  "round_double (3602879701896397 / 2 ^ 51 - 3602879701896397 / 2 ^ 54) = 6305039478318695 / 2 ^ 52"
  using round_double_eval[of 52 "3602879701896397 / 2 ^ 51 - 3602879701896397 / 2 ^ 54"] by (simp add: round_half_even_def)

lemma sub_1_6_1_4:
  "round_double (3602879701896397 / 2 ^ 51 - 3152519739159347 / 2 ^ 51) = 225179981368525 / 2 ^ 50"
  using round_double_eval[of 55 "3602879701896397 / 2 ^ 51 - 3152519739159347 / 2 ^ 51"] by (simp add: round_half_even_def)

lemma add_low_left:
  "round_double (225179981368525 / 2 ^ 50 + 3152519739159347 / 2 ^ 51) = 3602879701896397 / 2 ^ 51"
  using round_double_eval[of 52 "225179981368525 / 2 ^ 50 + 3152519739159347 / 2 ^ 51"] by (simp add: round_half_even_def)

lemma add_high_left:
  "round_double (6305039478318695 / 2 ^ 52 + 3602879701896397 / 2 ^ 54) = 3602879701896397 / 2 ^ 51"
  using round_double_eval[of 52 "6305039478318695 / 2 ^ 52 + 3602879701896397 / 2 ^ 54"] by (simp add: round_half_even_def)

lemma div_1_2_timestep:
  "round_double (5404319552844595 / 2 ^ 52 / (7378697629483821 / 2 ^ 66)) = 6597069766655999 / 2 ^ 39"
  using round_double_eval[of 39 "5404319552844595 / 2 ^ 52 / (7378697629483821 / 2 ^ 66)"] by (simp add: round_half_even_def)

lemma neg_0_2:
  "round_double (- (3602879701896397 / 2 ^ 54)) = - (3602879701896397 / 2 ^ 54)"
  using round_double_eval[of 55 "- (3602879701896397 / 2 ^ 54)"] by (simp add: round_half_even_def)

lemma add_neg_0_2_0_8:
  "round_double (- (3602879701896397 / 2 ^ 54) + 3602879701896397 / 2 ^ 52) = 1351079888211149 / 2 ^ 51"
  using round_double_eval[of 53 "- (3602879701896397 / 2 ^ 54) + 3602879701896397 / 2 ^ 52"] by (simp add: round_half_even_def)

lemma mul_2001_timestep:
  "round_double (2001 * (7378697629483821 / 2 ^ 66)) = 3604681141747345 / 2 ^ 54"
  using round_double_eval[of 55 "2001 * (7378697629483821 / 2 ^ 66)"] by (simp add: round_half_even_def)

lemma exact_sample_2001:
  "round_double (3604681141747345 / 2 ^ 54) = 3604681141747345 / 2 ^ 54"
  using round_double_eval[of 55 "3604681141747345 / 2 ^ 54"] by (simp add: round_half_even_def)

lemma sub_sample_2001_0_2:
  "round_double (3604681141747345 / 2 ^ 54 - 3602879701896397 / 2 ^ 54) = 450359962737 / 2 ^ 52"
  using round_double_eval[of 66 "3604681141747345 / 2 ^ 54 - 3602879701896397 / 2 ^ 54"] by (simp add: round_half_even_def)

text \<open>The two values of the right signal, for a false and for a true comparison.\<close>

lemma right_signal_false:
  "double_add (double_mul 0 (round_double (12 / 10))) (round_double (2 / 10)) = 3602879701896397 / 2 ^ 54"
  by (simp only: double_add_def double_mul_def mult_zero_left round_double_zero add_0_left
      literal_0_2 exact_0_2)

lemma right_signal_true:
  "double_add (double_mul 1 (round_double (12 / 10))) (round_double (2 / 10)) = 3152519739159347 / 2 ^ 51"
  by (simp only: double_add_def double_mul_def mult_1_left literal_1_2 literal_0_2 exact_1_2
      add_1_2_0_2)

lemma right_signal_cases:
  "right_signal_at t =
     (if py_mod (double_sub t (round_double (2 / 10))) (round_double (8 / 10))
           > round_double (4 / 10)
      then 3152519739159347 / 2 ^ 51 else 3602879701896397 / 2 ^ 54)"
proof (cases "py_mod (double_sub t (round_double (2 / 10))) (round_double (8 / 10))
                > round_double (4 / 10)")
  case True
  then have "right_signal_at t
      = double_add (double_mul 1 (round_double (12 / 10))) (round_double (2 / 10))"
    unfolding right_signal_at_def by (simp only: of_bool_eq if_True)
  with True show ?thesis by (simp only: right_signal_true if_True)
next
  case False
  then have "right_signal_at t
      = double_add (double_mul 0 (round_double (12 / 10))) (round_double (2 / 10))"
    unfolding right_signal_at_def by (simp only: of_bool_eq if_False)
  with False show ?thesis by (simp only: right_signal_false if_False)
qed

lemma right_signal_values:
  "right_signal_at t = 3602879701896397 / 2 ^ 54 \<or> right_signal_at t = 3152519739159347 / 2 ^ 51"
  unfolding right_signal_cases[of t] by (rule if_split[THEN iffD2]) blast

text \<open>The two values of the left signal, and the sums.\<close>

lemma left_signal_of_0_2:
  "double_sub (round_double (16 / 10)) (3602879701896397 / 2 ^ 54) = 6305039478318695 / 2 ^ 52"
  by (simp only: double_sub_def literal_1_6 sub_1_6_0_2)

lemma left_signal_of_1_4:
  "double_sub (round_double (16 / 10)) (3152519739159347 / 2 ^ 51) = 225179981368525 / 2 ^ 50"
  by (simp only: double_sub_def literal_1_6 sub_1_6_1_4)

lemma sum_low_left:
  "double_add (225179981368525 / 2 ^ 50) (3152519739159347 / 2 ^ 51) = round_double (16 / 10)"
  by (simp only: double_add_def add_low_left literal_1_6)

lemma sum_high_left:
  "double_add (6305039478318695 / 2 ^ 52) (3602879701896397 / 2 ^ 54) = round_double (16 / 10)"
  by (simp only: double_add_def add_high_left literal_1_6)

lemma descending_signals_rows:
  "descending_signals
     = map (\<lambda>t. [double_sub (round_double (16 / 10)) (right_signal_at t), right_signal_at t])
           t_samples"
  by (simp add: descending_signals_def left_descending_signal_def right_descending_signal_def
      zip_map1 zip_map2 zip_same_conv_map o_def)

lemma length_t_samples: "length t_samples = 12000"
proof -
  have "length t_samples = nat \<lceil>6597069766655999 / 2 ^ 39 :: real\<rceil>"
    by (simp only: t_samples_def arange_def notebook_timestep_def double_sub_def double_div_def
        literal_1_2 literal_1e_4 diff_zero exact_1_2 div_1_2_timestep length_map length_upt)
  also have "\<dots> = 12000" by simp
  finally show ?thesis .
qed

lemma t_samples_nth:
  "i < 12000 \<Longrightarrow> t_samples ! i = double_add 0 (double_mul (real i) notebook_timestep)"
  using length_t_samples by (simp add: t_samples_def arange_def)

text \<open>Sample 0, at time 0: the comparison holds.\<close>

lemma sample_0: "t_samples ! 0 = 0"
proof -
  have "t_samples ! 0 = double_add 0 (double_mul (real 0) notebook_timestep)"
    by (rule t_samples_nth) simp
  then show ?thesis
    by (simp only: double_add_def double_mul_def of_nat_0 mult_zero_left round_double_zero
        add_0_left)
qed

lemma fmod_sample_0: "fmod (- (3602879701896397 / 2 ^ 54)) (3602879701896397 / 2 ^ 52) = - (3602879701896397 / 2 ^ 54)"
  by (simp add: fmod_def ceiling_eq_iff)

lemma py_mod_sample_0: "py_mod (- (3602879701896397 / 2 ^ 54)) (3602879701896397 / 2 ^ 52) = 1351079888211149 / 2 ^ 51"
proof -
  have c: "(- (3602879701896397 / 2 ^ 54) \<noteq> (0::real) \<and> ((3602879701896397 / 2 ^ 52 < (0::real)) \<noteq> (- (3602879701896397 / 2 ^ 54) < (0::real)))) = True"
    by simp
  show ?thesis
    by (simp only: py_mod_def Let_def fmod_sample_0 c if_True double_add_def add_neg_0_2_0_8)
qed

lemma right_signal_sample_0: "right_signal_at 0 = 3152519739159347 / 2 ^ 51"
proof -
  have c: "(1351079888211149 / 2 ^ 51 > (3602879701896397 / 2 ^ 53 :: real)) = True" by simp
  show ?thesis
    by (simp only: right_signal_cases double_sub_def literal_0_2 literal_0_8 literal_0_4 diff_0
        neg_0_2 py_mod_sample_0 c if_True)
qed

lemma first_row: "descending_signals ! 0 = [225179981368525 / 2 ^ 50, 3152519739159347 / 2 ^ 51]"
proof -
  have "descending_signals ! 0
      = [double_sub (round_double (16 / 10)) (right_signal_at (t_samples ! 0)),
         right_signal_at (t_samples ! 0)]"
    using length_t_samples by (simp add: descending_signals_rows)
  then show ?thesis by (simp only: sample_0 right_signal_sample_0 left_signal_of_1_4)
qed

text \<open>Sample 2001, just after time 0.2: the comparison fails.\<close>

lemma sample_2001: "t_samples ! 2001 = 3604681141747345 / 2 ^ 54"
proof -
  have "t_samples ! 2001 = double_add 0 (double_mul (real 2001) notebook_timestep)"
    by (rule t_samples_nth) simp
  then show ?thesis
    by (simp only: double_add_def double_mul_def of_nat_numeral notebook_timestep_def
        literal_1e_4 mul_2001_timestep add_0_left exact_sample_2001)
qed

lemma fmod_sample_2001: "fmod (450359962737 / 2 ^ 52) (3602879701896397 / 2 ^ 52) = 450359962737 / 2 ^ 52"
  by (simp add: fmod_def)

lemma py_mod_sample_2001: "py_mod (450359962737 / 2 ^ 52) (3602879701896397 / 2 ^ 52) = 450359962737 / 2 ^ 52"
proof -
  have c: "(450359962737 / 2 ^ 52 \<noteq> (0::real) \<and> ((3602879701896397 / 2 ^ 52 < (0::real)) \<noteq> (450359962737 / 2 ^ 52 < (0::real)))) = False"
    by simp
  show ?thesis
    by (simp only: py_mod_def Let_def fmod_sample_2001 c if_False)
qed

lemma right_signal_sample_2001: "right_signal_at (3604681141747345 / 2 ^ 54) = 3602879701896397 / 2 ^ 54"
proof -
  have c: "(450359962737 / 2 ^ 52 > (3602879701896397 / 2 ^ 53 :: real)) = False" by simp
  show ?thesis
    by (simp only: right_signal_cases double_sub_def literal_0_2 literal_0_8 literal_0_4
        sub_sample_2001_0_2 py_mod_sample_2001 c if_False)
qed

lemma later_row: "descending_signals ! 2001 = [6305039478318695 / 2 ^ 52, 3602879701896397 / 2 ^ 54]"
proof -
  have "descending_signals ! 2001
      = [double_sub (round_double (16 / 10)) (right_signal_at (t_samples ! 2001)),
         right_signal_at (t_samples ! 2001)]"
    using length_t_samples by (simp add: descending_signals_rows)
  then show ?thesis by (simp only: sample_2001 right_signal_sample_2001 left_signal_of_0_2)
qed

section \<open>The zig-zag demonstration\<close>

lemma zigzag_row_facts:
  assumes "row \<in> set descending_signals"
  shows "(row = [6305039478318695 / 2 ^ 52, 3602879701896397 / 2 ^ 54]
          \<or> row = [225179981368525 / 2 ^ 50, 3152519739159347 / 2 ^ 51])"
proof -
  from assms obtain t where
    row: "row = [double_sub (round_double (16 / 10)) (right_signal_at t), right_signal_at t]"
    by (auto simp: descending_signals_rows)
  from right_signal_values[of t] show ?thesis
  proof
    assume "right_signal_at t = 3602879701896397 / 2 ^ 54"
    with row have "row = [6305039478318695 / 2 ^ 52, 3602879701896397 / 2 ^ 54]"
      by (simp only: left_signal_of_0_2)
    then show ?thesis by (rule disjI1)
  next
    assume "right_signal_at t = 3152519739159347 / 2 ^ 51"
    with row have "row = [225179981368525 / 2 ^ 50, 3152519739159347 / 2 ^ 51]"
      by (simp only: left_signal_of_1_4)
    then show ?thesis by (rule disjI2)
  qed
qed

lemma high_left_above_1_4: "(6305039478318695 / 2 ^ 52 :: real) = round_double (14 / 10) + 1 / 2 ^ 52"
  unfolding literal_1_4 by simp

lemma low_left_above_0_2: "(225179981368525 / 2 ^ 50 :: real) = round_double (2 / 10) + 3 / 2 ^ 54"
  unfolding literal_0_2 by simp

lemma nuro_zero_command:
  "compute_intrinsic_overrides self [0, 0]
     = Inr (map uminus (self_intrinsic_freqs self), [0, 0, 0, 0, 0, 0])"
  by (simp add: overrides_pair signed_freq_zero flip: map_append)

text \<open>
  C10, as the code has it. The zig-zag run has 12000 samples. At every sample the
  right signal is the double 0.2 or the double 1.4 and the left signal is
  \<open>1.6 - right\<close> rounded, which is the double 1.4 plus \<open>2\<^sup>-\<^sup>5\<^sup>2\<close> (printed
  1.4000000000000001) or the double 0.2 plus \<open>3 \<cdot> 2\<^sup>-\<^sup>5\<^sup>4\<close> (printed 0.20000000000000018);
  their sum, rounded, is the double 1.6; both are strictly positive, so the zig-zag
  commands, which go to McFly, keep the baseline frequencies on both sides and never
  take the negated-frequency branch. The same loop gives Nuro the command
  \<open>np.zeros(2)\<close> at every step, and that command negates every frequency.
\<close>

theorem zigzag_signals_sum_and_stay_positive:
  "length descending_signals = 12000
   \<and> (\<forall>row \<in> set descending_signals. \<exists>l r. row = [l, r]
        \<and> double_add l r = round_double (16 / 10)
        \<and> ((r = round_double (2 / 10) \<and> l = round_double (14 / 10) + 1 / 2 ^ 52)
            \<or> (r = round_double (14 / 10) \<and> l = round_double (2 / 10) + 3 / 2 ^ 54))
        \<and> 0 < l \<and> 0 < r
        \<and> (\<forall>self. compute_intrinsic_overrides self row
                      = Inr (self_intrinsic_freqs self, [l, l, l, r, r, r])))
   \<and> (\<forall>acts \<in> set multifly_actions. fst acts = [0, 0]
        \<and> (\<forall>self. compute_intrinsic_overrides self (fst acts)
                      = Inr (map uminus (self_intrinsic_freqs self), [0, 0, 0, 0, 0, 0])))"
proof (intro conjI ballI)
  show "length descending_signals = 12000"
    by (simp add: descending_signals_rows length_t_samples)
next
  fix acts assume "acts \<in> set multifly_actions"
  then show "fst acts = [0, 0]"
    by (auto simp: multifly_actions_def numeral_2_eq_2)
  then show "\<forall>self. compute_intrinsic_overrides self (fst acts)
                      = Inr (map uminus (self_intrinsic_freqs self), [0, 0, 0, 0, 0, 0])"
    by (simp add: nuro_zero_command)
next
  fix row assume "row \<in> set descending_signals"
  from zigzag_row_facts[OF this]
  show "\<exists>l r. row = [l, r]
        \<and> double_add l r = round_double (16 / 10)
        \<and> ((r = round_double (2 / 10) \<and> l = round_double (14 / 10) + 1 / 2 ^ 52)
            \<or> (r = round_double (14 / 10) \<and> l = round_double (2 / 10) + 3 / 2 ^ 54))
        \<and> 0 < l \<and> 0 < r
        \<and> (\<forall>self. compute_intrinsic_overrides self row
                      = Inr (self_intrinsic_freqs self, [l, l, l, r, r, r]))"
  proof
    assume row: "row = [6305039478318695 / 2 ^ 52, 3602879701896397 / 2 ^ 54]"
    have p: "(0::real) < 6305039478318695 / 2 ^ 52" "(0::real) < 3602879701896397 / 2 ^ 54"
      by simp_all
    from row sum_high_left literal_0_2[symmetric] high_left_above_1_4 p
      overrides_forward[OF p]
    show ?thesis by blast
  next
    assume row: "row = [225179981368525 / 2 ^ 50, 3152519739159347 / 2 ^ 51]"
    have p: "(0::real) < 225179981368525 / 2 ^ 50" "(0::real) < 3152519739159347 / 2 ^ 51"
      by simp_all
    from row sum_low_left literal_1_4[symmetric] low_left_above_0_2 p
      overrides_forward[OF p]
    show ?thesis by blast
  qed
qed

theorem zigzag_signals_sum_and_stay_positive_witness:
  "[225179981368525 / 2 ^ 50, 3152519739159347 / 2 ^ 51] \<in> set descending_signals
   \<and> [6305039478318695 / 2 ^ 52, 3602879701896397 / 2 ^ 54] \<in> set descending_signals
   \<and> double_add (225179981368525 / 2 ^ 50) (3152519739159347 / 2 ^ 51) = round_double (16 / 10)
   \<and> compute_intrinsic_overrides sample_fly [225179981368525 / 2 ^ 50, 3152519739159347 / 2 ^ 51]
       = Inr (self_intrinsic_freqs sample_fly,
              [225179981368525 / 2 ^ 50, 225179981368525 / 2 ^ 50, 225179981368525 / 2 ^ 50,
               3152519739159347 / 2 ^ 51, 3152519739159347 / 2 ^ 51, 3152519739159347 / 2 ^ 51])"
proof -
  have len: "length descending_signals = 12000"
    using zigzag_signals_sum_and_stay_positive by blast
  have m1: "[225179981368525 / 2 ^ 50, 3152519739159347 / 2 ^ 51] \<in> set descending_signals"
    using nth_mem[of 0 descending_signals] len by (simp only: first_row)
  have m2: "[6305039478318695 / 2 ^ 52, 3602879701896397 / 2 ^ 54] \<in> set descending_signals"
    using nth_mem[of 2001 descending_signals] len by (simp only: later_row)
  from zigzag_signals_sum_and_stay_positive m1
  obtain l r where lr: "[225179981368525 / 2 ^ 50, 3152519739159347 / 2 ^ 51] = [l, r]"
    and s: "double_add l r = round_double (16 / 10)"
    and c: "\<forall>self. compute_intrinsic_overrides self
                [225179981368525 / 2 ^ 50, 3152519739159347 / 2 ^ 51]
              = Inr (self_intrinsic_freqs self, [l, l, l, r, r, r])"
    by blast
  from lr have "l = 225179981368525 / 2 ^ 50" "r = 3152519739159347 / 2 ^ 51"
    by (simp_all only: list.inject)
  with s c m1 m2 show ?thesis by blast
qed

text \<open>
  C10 at sample 0. The left signal is 0.20000000000000018, which is neither 0.2 nor 1.4,
  as doubles or as real numbers; and Nuro's command in the same step is \<open>[0, 0]\<close>,
  which for baselines at 12 Hz gives the frequencies -12: the demonstration does take
  the negated-frequency branch.
\<close>

theorem zigzag_left_value_and_nuro_command:
  "descending_signals ! 0 = [225179981368525 / 2 ^ 50, 3152519739159347 / 2 ^ 51]
   \<and> (225179981368525 / 2 ^ 50 :: real) \<noteq> round_double (2 / 10)
   \<and> (225179981368525 / 2 ^ 50 :: real) \<noteq> round_double (14 / 10)
   \<and> (225179981368525 / 2 ^ 50 :: real) \<noteq> 2 / 10
   \<and> (225179981368525 / 2 ^ 50 :: real) \<noteq> 14 / 10
   \<and> fst (multifly_actions ! 0) = [0, 0]
   \<and> compute_intrinsic_overrides sample_fly (fst (multifly_actions ! 0))
       = Inr ([- 12, - 12, - 12, - 12, - 12, - 12], [0, 0, 0, 0, 0, 0])"
proof -
  have n1: "(225179981368525 / 2 ^ 50 :: real) \<noteq> round_double (2 / 10)"
    unfolding literal_0_2 by simp
  have n2: "(225179981368525 / 2 ^ 50 :: real) \<noteq> round_double (14 / 10)"
    unfolding literal_1_4 by simp
  have n3: "(225179981368525 / 2 ^ 50 :: real) \<noteq> 2 / 10"
    and n4: "(225179981368525 / 2 ^ 50 :: real) \<noteq> 14 / 10"
    by simp_all
  have len: "length descending_signals = 12000"
    by (simp add: descending_signals_rows length_t_samples)
  have a: "fst (multifly_actions ! 0) = [0, 0]"
    using len by (simp add: multifly_actions_def numeral_2_eq_2)
  have o: "compute_intrinsic_overrides sample_fly [0, 0]
       = Inr ([- 12, - 12, - 12, - 12, - 12, - 12], [0, 0, 0, 0, 0, 0])"
    by (simp add: overrides_pair sample_fly_def signed_freq_def)
  from first_row n1 n2 n3 n4 a o show ?thesis by (simp only: a) blast
qed

end
